theory Spec2Isabelle
  imports Complex_Main "HOL-Library.Monad_Syntax"
begin

section \<open>The dashboard view (\<open>src/app/page.tsx\<close>) and the proxy route (\<open>src/app/api/research/route.ts\<close>)\<close>

text \<open>
  Strings are \<open>string\<close>: a character stands for one code unit below 256. Array indices
  are natural numbers: the form only passes the index of a rendered field.
\<close>

subsection \<open>The token identifier list\<close>

text \<open>\<open>useState<string[]>([''])\<close>\<close>

definition initial_tokens :: "string list" where
  "initial_tokens = ['''']"

text \<open>
  \<^verbatim>\<open>const updated = [...tokens]; updated[index] = value; setTokens(updated)\<close>

  A write past the end would leave \<open>string[]\<close> (JavaScript creates a sparse array);
  the result is \<open>None\<close> there. The form only calls it with the index of a rendered field.
\<close>

definition handleTokenChange :: "nat \<Rightarrow> string \<Rightarrow> string list \<Rightarrow> string list option" where
  "handleTokenChange index v tokens =
     (if index < length tokens then Some (tokens[index := v]) else None)"

text \<open>\<^verbatim>\<open>setTokens([...tokens, ''])\<close>\<close>

definition addTokenField :: "string list \<Rightarrow> string list" where
  "addTokenField tokens = tokens @ ['''']"

text \<open>
  \<^verbatim>\<open>if (tokens.length > 1) { setTokens(tokens.filter((_, i) => i !== index)) }\<close>
\<close>

definition removeTokenField :: "nat \<Rightarrow> string list \<Rightarrow> string list" where
  "removeTokenField index tokens =
     (if length tokens > 1
      then map snd (filter (\<lambda>(i, _). i \<noteq> index) (enumerate 0 tokens))
      else tokens)"

text \<open>
  The lists the view can hold: the initial one, and what the three handlers make of a list
  it can hold. The form renders one field per entry (\<open>tokens.map((token, idx) => ...)\<close>), so
  edits and removals carry the index of an existing entry.
\<close>

inductive reachable_tokens :: "string list \<Rightarrow> bool" where
  init: "reachable_tokens initial_tokens"
| edit: "reachable_tokens ts \<Longrightarrow> handleTokenChange i v ts = Some ts' \<Longrightarrow> reachable_tokens ts'"
| add: "reachable_tokens ts \<Longrightarrow> reachable_tokens (addTokenField ts)"
| remove: "reachable_tokens ts \<Longrightarrow> i < length ts \<Longrightarrow> reachable_tokens (removeTokenField i ts)"

subsection \<open>JavaScript strings\<close>

text \<open>
  \<open>String.prototype.trim\<close> removes white space and line terminators from both ends. Of the
  code units below 256 these are TAB (9), LF (10), VT (11), FF (12), CR (13), SP (32) and
  NBSP (160).
\<close>

definition is_white_space :: "char \<Rightarrow> bool" where
  "is_white_space c \<longleftrightarrow> (of_char c :: nat) \<in> set [9, 10, 11, 12, 13, 32, 160]"

definition trim :: "string \<Rightarrow> string" where
  "trim s = rev (dropWhile is_white_space (rev (dropWhile is_white_space s)))"

text \<open>
  \<open>String.prototype.toLowerCase\<close> on code units below 256: A-Z and the accented capitals
  U+00C0-U+00DE (without the multiplication sign U+00D7) move up by 32.
\<close>

definition lower_char :: "char \<Rightarrow> char" where
  "lower_char c =
     (let n = (of_char c :: nat)
      in if (65 \<le> n \<and> n \<le> 90) \<or> (192 \<le> n \<and> n \<le> 222 \<and> n \<noteq> 215)
         then char_of (n + 32) else c)"

definition toLowerCase :: "string \<Rightarrow> string" where
  "toLowerCase s = map lower_char s"

text \<open>A count inside a template literal: its decimal digits.\<close>

fun decimal :: "nat \<Rightarrow> string" where
  "decimal n =
     (if n < 10 then [char_of (48 + n)]
      else decimal (n div 10) @ [char_of (48 + n mod 10)])"

declare decimal.simps [simp del]

subsection \<open>JSON values and the token schema\<close>

text \<open>
  The value a response body decodes to. A number is what \<open>JSON.parse\<close> yields for a
  numeric literal: a finite double (\<open>Num\<close> with its value, negative zero apart), negative
  zero (for \<open>-0\<close>), or an infinity (for a literal out of range, such as \<open>1e999\<close>). The view
  never computes with a number. An object is the list of its members; a key is looked up
  with \<open>map_of\<close>.
\<close>

datatype js_number = Num real | NegZero | Infinity | NegInfinity

datatype json =
    JNull
  | JBool bool
  | JNum js_number
  | JStr string
  | JArr "json list"
  | JObj "(string \<times> json) list"

datatype Sentiment = Bullish | Bearish | Neutral | StrongBullish | StrongBearish

text \<open>\<open>type TokenInfo = z.infer<typeof TokenSchema>\<close>; the field \<open>id\<close> is \<open>id_field\<close> here.\<close>

record TokenInfo =
  id_field :: string
  name :: string
  symbol :: string
  image :: string
  summary :: string
  price :: "js_number option"
  market_cap :: "js_number option"
  price_change_24h :: "js_number option"
  volume_24h :: "js_number option"
  circulating_supply :: "js_number option"
  sentiment :: Sentiment

datatype error =
    FetchFailed         \<comment> \<open>\<open>fetch\<close> rejects: the transport did not complete\<close>
  | ApiRequestFailed    \<comment> \<open>\<open>throw new Error('API request failed')\<close>\<close>
  | BodyNotJson         \<comment> \<open>\<open>res.json()\<close> rejects\<close>
  | ZodError            \<comment> \<open>\<open>TokenSchema.parse\<close> throws\<close>
  | SyntaxError         \<comment> \<open>\<open>JSON.parse\<close> throws\<close>

text \<open>The member of an object under a key; a value that is not an object has none.\<close>

fun field :: "json \<Rightarrow> string \<Rightarrow> json option" where
  "field (JObj members) k = map_of members k"
| "field _ k = None"

text \<open>\<open>z.string()\<close>\<close>

fun z_string :: "json option \<Rightarrow> string option" where
  "z_string (Some (JStr s)) = Some s"
| "z_string _ = None"

text \<open>
  \<open>z.string().url()\<close>: a string that the platform's URL parser accepts. That parser is not
  part of the repository; it is the parameter \<open>is_url\<close>.
\<close>

definition z_string_url :: "(string \<Rightarrow> bool) \<Rightarrow> json option \<Rightarrow> string option" where
  "z_string_url is_url v =
     (case z_string v of
        None \<Rightarrow> None
      | Some s \<Rightarrow> if is_url s then Some s else None)"

text \<open>\<open>z.number().optional()\<close>: an absent member is accepted, a member of another type is not.\<close>

fun z_number_optional :: "json option \<Rightarrow> js_number option option" where
  "z_number_optional None = Some None"
| "z_number_optional (Some (JNum n)) = Some (Some n)"
| "z_number_optional _ = None"

text \<open>\<open>z.enum(['bullish', 'bearish', 'neutral', 'strong bullish', 'strong bearish'])\<close>\<close>

fun z_enum_sentiment :: "json option \<Rightarrow> Sentiment option" where
  "z_enum_sentiment (Some (JStr s)) =
     (if s = ''bullish'' then Some Bullish
      else if s = ''bearish'' then Some Bearish
      else if s = ''neutral'' then Some Neutral
      else if s = ''strong bullish'' then Some StrongBullish
      else if s = ''strong bearish'' then Some StrongBearish
      else None)"
| "z_enum_sentiment _ = None"

text \<open>
  \<open>TokenSchema.parse(data)\<close>: \<open>data\<close> must be an object, every member must pass its check,
  members the schema does not name are dropped.
\<close>

fun is_object :: "json \<Rightarrow> bool" where
  "is_object (JObj members) = True"
| "is_object _ = False"

definition TokenSchema_fields :: "(string \<Rightarrow> bool) \<Rightarrow> json \<Rightarrow> TokenInfo option" where
  "TokenSchema_fields is_url data = do {
     v_id \<leftarrow> z_string (field data ''id'');
     v_name \<leftarrow> z_string (field data ''name'');
     v_symbol \<leftarrow> z_string (field data ''symbol'');
     v_image \<leftarrow> z_string_url is_url (field data ''image'');
     v_summary \<leftarrow> z_string (field data ''summary'');
     v_price \<leftarrow> z_number_optional (field data ''price'');
     v_market_cap \<leftarrow> z_number_optional (field data ''market_cap'');
     v_price_change_24h \<leftarrow> z_number_optional (field data ''price_change_24h'');
     v_volume_24h \<leftarrow> z_number_optional (field data ''volume_24h'');
     v_circulating_supply \<leftarrow> z_number_optional (field data ''circulating_supply'');
     v_sentiment \<leftarrow> z_enum_sentiment (field data ''sentiment'');
     Some \<lparr>id_field = v_id, name = v_name, symbol = v_symbol, image = v_image,
           summary = v_summary, price = v_price, market_cap = v_market_cap,
           price_change_24h = v_price_change_24h, volume_24h = v_volume_24h,
           circulating_supply = v_circulating_supply, sentiment = v_sentiment\<rparr>
   }"

definition TokenSchema_parse :: "(string \<Rightarrow> bool) \<Rightarrow> json \<Rightarrow> error + TokenInfo" where
  "TokenSchema_parse is_url data =
     (if is_object data
      then (case TokenSchema_fields is_url data of
              None \<Rightarrow> Inl ZodError
            | Some t \<Rightarrow> Inr t)
      else Inl ZodError)"

subsection \<open>One request per token\<close>

text \<open>
  What a call of \<open>fetch\<close> comes to: the transport fails, or a response arrives with a status
  and a body that decodes as JSON (\<open>Some\<close>) or does not (\<open>None\<close>).
\<close>

datatype fetch_outcome = NetworkError | HttpResponse nat "json option"

text \<open>\<open>res.ok\<close>\<close>

definition ok :: "nat \<Rightarrow> bool" where
  "ok status \<longleftrightarrow> 200 \<le> status \<and> status \<le> 299"

datatype 'a settled = Fulfilled 'a | Rejected error

text \<open>
  \<^verbatim>\<open>fetch(url).then(res => { if (!res.ok) throw new Error('API request failed'); return res.json() })
            .then(data => TokenSchema.parse(data))\<close>
\<close>

definition fetchToken :: "(string \<Rightarrow> bool) \<Rightarrow> fetch_outcome \<Rightarrow> TokenInfo settled" where
  "fetchToken is_url outcome =
     (case outcome of
        NetworkError \<Rightarrow> Rejected FetchFailed
      | HttpResponse status body \<Rightarrow>
          if \<not> ok status then Rejected ApiRequestFailed
          else (case body of
                  None \<Rightarrow> Rejected BodyNotJson
                | Some data \<Rightarrow>
                    (case TokenSchema_parse is_url data of
                       Inl e \<Rightarrow> Rejected e
                     | Inr t \<Rightarrow> Fulfilled t)))"

text \<open>
  \<open>Promise.allSettled\<close>: one slot per promise, filled when that promise settles. \<open>order\<close>
  lists the promises in the order in which they settle. The combined promise resolves
  with the slots, in the order of the input, once every slot is filled; until then it is
  pending (\<open>None\<close>).
\<close>

definition fill_slot :: "'a settled list \<Rightarrow> nat \<Rightarrow> 'a settled option list \<Rightarrow> 'a settled option list" where
  "fill_slot ps i slots = (if i < length slots then slots[i := Some (ps ! i)] else slots)"

definition allSettled :: "'a settled list \<Rightarrow> nat list \<Rightarrow> 'a settled list option" where
  "allSettled ps order =
     (let slots = fold (fill_slot ps) order (replicate (length ps) None)
      in if list_all (\<lambda>x. x \<noteq> None) slots then Some (map the slots) else None)"

fun is_fulfilled :: "'a settled \<Rightarrow> bool" where
  "is_fulfilled (Fulfilled x) = True"
| "is_fulfilled (Rejected e) = False"

fun is_rejected :: "'a settled \<Rightarrow> bool" where
  "is_rejected (Fulfilled x) = False"
| "is_rejected (Rejected e) = True"

fun settled_value :: "'a settled \<Rightarrow> 'a option" where
  "settled_value (Fulfilled x) = Some x"
| "settled_value (Rejected e) = None"

text \<open>
  \<^verbatim>\<open>results.filter(r => r.status === 'fulfilled').map(r => r.value)\<close>
\<close>

definition successfulResults :: "'a settled list \<Rightarrow> 'a list" where
  "successfulResults rs = map (\<lambda>r. the (settled_value r)) (filter is_fulfilled rs)"

text \<open>\<^verbatim>\<open>results.filter(r => r.status === 'rejected').length\<close>\<close>

definition failedCount :: "'a settled list \<Rightarrow> nat" where
  "failedCount rs = length (filter is_rejected rs)"

text \<open>
  \<^verbatim>\<open>`Failed to fetch ${failedCount} token${failedCount > 1 ? 's' : ''}`\<close>
\<close>

definition failure_notice :: "nat \<Rightarrow> string" where
  "failure_notice n =
     ''Failed to fetch '' @ decimal n @ '' token'' @ (if n > 1 then ''s'' else [])"

subsection \<open>The view and its submit handler\<close>

text \<open>
  The state of \<open>Home\<close>, and the notices on screen (\<open>toasts\<close>, held by the toast library).
\<close>

record view =
  tokens :: "string list"
  results :: "TokenInfo list"
  loading :: bool
  dark :: bool
  toasts :: "string list"

text \<open>\<^verbatim>\<open>`/api/research?token=${token.toLowerCase()}`\<close>\<close>

definition request_url :: "string \<Rightarrow> string" where
  "request_url token = ''/api/research?token='' @ toLowerCase token"

text \<open>\<^verbatim>\<open>tokens.filter(t => t.trim())\<close>: the empty string is the only falsy string.\<close>

definition validTokens :: "string list \<Rightarrow> string list" where
  "validTokens ts = filter (\<lambda>t. trim t \<noteq> []) ts"

text \<open>
  \<open>handleSubmit\<close>. \<open>net i url\<close> is what the \<open>i\<close>-th request of the submission, sent to
  \<open>url\<close>, comes to; \<open>order\<close> is the order in which the requests settle. The result is the
  view the handler leaves and the URLs it passed to \<open>fetch\<close>, in the order of the calls.
  While some request has not settled the handler waits at \<open>await\<close>: the view is the one it
  set before.

  The \<open>catch\<close> branch is not reached: \<open>trim\<close> and \<open>toLowerCase\<close> are applied to strings,
  \<open>fetch\<close> returns a promise, and \<open>Promise.allSettled\<close> does not reject.
\<close>

definition handleSubmit ::
  "(string \<Rightarrow> bool) \<Rightarrow> (nat \<Rightarrow> string \<Rightarrow> fetch_outcome) \<Rightarrow> nat list \<Rightarrow> view \<Rightarrow> view \<times> string list"
where
  "handleSubmit is_url net order v =
     (let v1 = v\<lparr>loading := True, results := [], toasts := []\<rparr>;
          valid = validTokens (tokens v)
      in if valid = [] then
           (v1\<lparr>toasts := toasts v1 @ [''Please enter at least one token''], loading := False\<rparr>,
            [])
         else
           let urls = map request_url valid;
               promises = map (\<lambda>(i, url). fetchToken is_url (net i url)) (enumerate 0 urls)
           in (case allSettled promises order of
                 None \<Rightarrow> (v1, urls)
               | Some rs \<Rightarrow>
                   let n = failedCount rs;
                       v2 = (if n > 0 then v1\<lparr>toasts := toasts v1 @ [failure_notice n]\<rparr> else v1)
                   in (v2\<lparr>results := successfulResults rs, loading := False\<rparr>, urls)))"

subsection \<open>The proxy route\<close>

text \<open>
  \<open>NextResponse.json(data)\<close> writes \<open>JSON.stringify(data)\<close> into the reply. The function
  gives the value that text decodes to: an infinity is written as \<open>null\<close>, negative zero
  as \<open>0\<close>, inside arrays and objects too; every other value is written as a text that
  decodes to itself.
\<close>

primrec reencode :: "json \<Rightarrow> json" where
  "reencode JNull = JNull"
| "reencode (JBool b) = JBool b"
| "reencode (JNum n) =
     (case n of
        Num r \<Rightarrow> JNum (Num r)
      | NegZero \<Rightarrow> JNum (Num 0)
      | Infinity \<Rightarrow> JNull
      | NegInfinity \<Rightarrow> JNull)"
| "reencode (JStr s) = JStr s"
| "reencode (JArr xs) = JArr (map reencode xs)"
| "reencode (JObj members) = JObj (map (map_prod id reencode) members)"

text \<open>
  \<open>GET\<close> of \<open>route.ts\<close>. \<open>searchParams\<close> are the name/value pairs of the request's query in
  their order (\<open>searchParams.get\<close> returns the first value under a name); \<open>upstream url\<close>
  is what the call of \<open>fetch\<close> to \<open>url\<close> comes to. The result is the list of URLs fetched
  and either the reply (the status, and the value the body decodes to) or the error the
  handler throws.
\<close>

definition upstream_base :: string where
  "upstream_base = ''https://crypto-research-agent-api-yvc3.onrender.com/research?token=''"

definition token_required :: json where
  "token_required = JObj [(''error'', JStr ''Token is required'')]"

definition GET ::
  "(string \<Rightarrow> fetch_outcome) \<Rightarrow> (string \<times> string) list \<Rightarrow> string list \<times> (error + nat \<times> json)"
where
  "GET upstream searchParams =
     (case map_of searchParams ''token'' of
        None \<Rightarrow> ([], Inr (400, token_required))
      | Some token \<Rightarrow>
          if token = [] then ([], Inr (400, token_required))
          else
            let url = upstream_base @ token
            in (case upstream url of
                  NetworkError \<Rightarrow> ([url], Inl FetchFailed)
                | HttpResponse status body \<Rightarrow>
                    (case body of
                       None \<Rightarrow> ([url], Inl BodyNotJson)
                     | Some data \<Rightarrow> ([url], Inr (200, reencode data)))))"


subsection \<open>The request as the proxy receives it\<close>

text \<open>
  \<open>fetch\<close> parses its argument as a URL, and the route reads \<open>req.nextUrl.searchParams\<close>.
  Both belong to the platform (the URL standard). The parser first removes the characters
  up to U+0020 from both ends of the text, then every TAB, LF and CR inside it. The query
  is the text after the first \<open>?\<close>, without the fragment that starts at the first \<open>#\<close>.
  Its pairs are separated by \<open>&\<close>, name and value by the first \<open>=\<close>, and \<open>+\<close> stands for
  a space. Percent escapes are not modelled: for a query with \<open>%\<close> the result is \<open>None\<close>.
\<close>

definition c0_or_space :: "char \<Rightarrow> bool" where
  "c0_or_space c \<longleftrightarrow> (of_char c :: nat) \<le> 32"

definition tab_or_newline :: "char \<Rightarrow> bool" where
  "tab_or_newline c \<longleftrightarrow> (of_char c :: nat) \<in> set [9, 10, 13]"

definition url_input :: "string \<Rightarrow> string" where
  "url_input s =
     filter (\<lambda>c. \<not> tab_or_newline c)
       (rev (dropWhile c0_or_space (rev (dropWhile c0_or_space s))))"

definition url_query :: "string \<Rightarrow> string" where
  "url_query s = drop 1 (dropWhile (\<lambda>c. c \<noteq> CHR ''?'') (takeWhile (\<lambda>c. c \<noteq> CHR ''#'') s))"

fun split_pairs :: "string \<Rightarrow> string \<Rightarrow> string list" where
  "split_pairs acc [] = [rev acc]"
| "split_pairs acc (c # cs) =
     (if c = CHR ''&'' then rev acc # split_pairs [] cs else split_pairs (c # acc) cs)"

definition name_value :: "string \<Rightarrow> string \<times> string" where
  "name_value p =
     (let q = map (\<lambda>c. if c = CHR ''+'' then CHR '' '' else c) p
      in (takeWhile (\<lambda>c. c \<noteq> CHR ''='') q, drop 1 (dropWhile (\<lambda>c. c \<noteq> CHR ''='') q)))"

definition searchParams_of :: "string \<Rightarrow> (string \<times> string) list option" where
  "searchParams_of url =
     (let q = url_query (url_input url)
      in if CHR ''%'' \<in> set q then None
         else Some (map name_value (filter (\<lambda>p. p \<noteq> []) (split_pairs [] q))))"

subsection \<open>The stored dark-mode flag\<close>

text \<open>
  \<open>JSON.parse\<close> is part of the platform. It is modelled as the recogniser of the JSON
  grammar (one pass over the text, with the stack of the arrays and objects that are
  open), and returns the kind of the value at the top; a boolean is returned whole.
\<close>

datatype js_value = VNull | VBool bool | VNumber | VString | VArray | VObject

datatype container = InArray | InObject

datatype mode =
    Value         \<comment> \<open>a value must start\<close>
  | ArrFirst      \<comment> \<open>after \<open>[\<close>: a value or \<open>]\<close>\<close>
  | ObjFirst      \<comment> \<open>after \<open>{\<close>: a key or \<open>}\<close>\<close>
  | Key           \<comment> \<open>after \<open>,\<close> in an object: a key\<close>
  | Colon         \<comment> \<open>after a key\<close>
  | After         \<comment> \<open>after a value\<close>
  | Str bool      \<comment> \<open>in a string (\<open>True\<close>: the string is a key)\<close>
  | Esc bool      \<comment> \<open>after a backslash in a string\<close>
  | Hex nat bool  \<comment> \<open>in \<open>\u\<close>, that many hexadecimal digits to come\<close>
  | Lit string    \<comment> \<open>in \<open>true\<close>, \<open>false\<close> or \<open>null\<close>, these characters to come\<close>
  | NumMinus | NumZero | NumInt | NumDot | NumFrac | NumE | NumESign | NumExp

definition json_ws :: "char \<Rightarrow> bool" where
  "json_ws c \<longleftrightarrow> c \<in> set [CHR 0x20, CHR 0x09, CHR 0x0A, CHR 0x0D]"

definition digit :: "char \<Rightarrow> bool" where
  "digit c \<longleftrightarrow> c \<in> set ''0123456789''"

definition digit19 :: "char \<Rightarrow> bool" where
  "digit19 c \<longleftrightarrow> c \<in> set ''123456789''"

definition hexdigit :: "char \<Rightarrow> bool" where
  "hexdigit c \<longleftrightarrow> c \<in> set ''0123456789abcdefABCDEF''"

definition control :: "char \<Rightarrow> bool" where
  "control c \<longleftrightarrow> (of_char c :: nat) < 32"

text \<open>The first character of a value.\<close>

definition start_value :: "char \<Rightarrow> container list \<Rightarrow> (mode \<times> container list) option" where
  "start_value c stack =
     (if c = CHR 0x22 then Some (Str False, stack)
      else if c = CHR ''['' then Some (ArrFirst, InArray # stack)
      else if c = CHR ''{'' then Some (ObjFirst, InObject # stack)
      else if c = CHR ''t'' then Some (Lit ''rue'', stack)
      else if c = CHR ''f'' then Some (Lit ''alse'', stack)
      else if c = CHR ''n'' then Some (Lit ''ull'', stack)
      else if c = CHR ''-'' then Some (NumMinus, stack)
      else if c = CHR ''0'' then Some (NumZero, stack)
      else if digit19 c then Some (NumInt, stack)
      else None)"

text \<open>The character after a value.\<close>

definition after_value :: "char \<Rightarrow> container list \<Rightarrow> (mode \<times> container list) option" where
  "after_value c stack =
     (if json_ws c then Some (After, stack)
      else if c = CHR '','' then
        (case stack of
           [] \<Rightarrow> None
         | InArray # _ \<Rightarrow> Some (Value, stack)
         | InObject # _ \<Rightarrow> Some (Key, stack))
      else if c = CHR '']'' then
        (case stack of InArray # rest \<Rightarrow> Some (After, rest) | _ \<Rightarrow> None)
      else if c = CHR ''}'' then
        (case stack of InObject # rest \<Rightarrow> Some (After, rest) | _ \<Rightarrow> None)
      else None)"

fun step :: "mode \<Rightarrow> container list \<Rightarrow> char \<Rightarrow> (mode \<times> container list) option" where
  "step Value stack c = (if json_ws c then Some (Value, stack) else start_value c stack)"
| "step ArrFirst stack c =
     (if json_ws c then Some (ArrFirst, stack)
      else if c = CHR '']'' then Some (After, tl stack)
      else start_value c stack)"
| "step ObjFirst stack c =
     (if json_ws c then Some (ObjFirst, stack)
      else if c = CHR ''}'' then Some (After, tl stack)
      else if c = CHR 0x22 then Some (Str True, stack)
      else None)"
| "step Key stack c =
     (if json_ws c then Some (Key, stack)
      else if c = CHR 0x22 then Some (Str True, stack)
      else None)"
| "step Colon stack c =
     (if json_ws c then Some (Colon, stack)
      else if c = CHR '':'' then Some (Value, stack)
      else None)"
| "step After stack c = after_value c stack"
| "step (Str k) stack c =
     (if c = CHR 0x22 then Some (if k then Colon else After, stack)
      else if c = CHR 0x5C then Some (Esc k, stack)
      else if control c then None
      else Some (Str k, stack))"
| "step (Esc k) stack c =
     (if c \<in> set [CHR 0x22, CHR 0x5C, CHR ''/'', CHR ''b'', CHR ''f'', CHR ''n'', CHR ''r'', CHR ''t'']
      then Some (Str k, stack)
      else if c = CHR ''u'' then Some (Hex 4 k, stack)
      else None)"
| "step (Hex n k) stack c =
     (if hexdigit c then Some (if n \<le> 1 then Str k else Hex (n - 1) k, stack) else None)"
| "step (Lit []) stack c = None"
| "step (Lit (x # xs)) stack c =
     (if c = x then Some (if xs = [] then After else Lit xs, stack) else None)"
| "step NumMinus stack c =
     (if c = CHR ''0'' then Some (NumZero, stack)
      else if digit19 c then Some (NumInt, stack)
      else None)"
| "step NumZero stack c =
     (if c = CHR ''.'' then Some (NumDot, stack)
      else if c = CHR ''e'' \<or> c = CHR ''E'' then Some (NumE, stack)
      else after_value c stack)"
| "step NumInt stack c =
     (if digit c then Some (NumInt, stack)
      else if c = CHR ''.'' then Some (NumDot, stack)
      else if c = CHR ''e'' \<or> c = CHR ''E'' then Some (NumE, stack)
      else after_value c stack)"
| "step NumDot stack c = (if digit c then Some (NumFrac, stack) else None)"
| "step NumFrac stack c =
     (if digit c then Some (NumFrac, stack)
      else if c = CHR ''e'' \<or> c = CHR ''E'' then Some (NumE, stack)
      else after_value c stack)"
| "step NumE stack c =
     (if c = CHR ''+'' \<or> c = CHR ''-'' then Some (NumESign, stack)
      else if digit c then Some (NumExp, stack)
      else None)"
| "step NumESign stack c = (if digit c then Some (NumExp, stack) else None)"
| "step NumExp stack c = (if digit c then Some (NumExp, stack) else after_value c stack)"

text \<open>The text is read to its end; it is JSON when one value is complete and nothing is open.\<close>

fun run :: "mode \<Rightarrow> container list \<Rightarrow> string \<Rightarrow> bool" where
  "run m stack [] = (stack = [] \<and> m \<in> set [After, NumZero, NumInt, NumFrac, NumExp])"
| "run m stack (c # cs) =
     (case step m stack c of
        None \<Rightarrow> False
      | Some (m', stack') \<Rightarrow> run m' stack' cs)"

definition top_value :: "string \<Rightarrow> js_value" where
  "top_value s =
     (case dropWhile json_ws s of
        [] \<Rightarrow> VNull
      | c # _ \<Rightarrow>
          if c = CHR ''t'' then VBool True
          else if c = CHR ''f'' then VBool False
          else if c = CHR ''n'' then VNull
          else if c = CHR 0x22 then VString
          else if c = CHR ''['' then VArray
          else if c = CHR ''{'' then VObject
          else VNumber)"

definition JSON_parse :: "string \<Rightarrow> error + js_value" where
  "JSON_parse s = (if run Value [] s then Inr (top_value s) else Inl SyntaxError)"

text \<open>\<open>JSON.stringify\<close> of a boolean.\<close>

definition JSON_stringify :: "bool \<Rightarrow> string" where
  "JSON_stringify b = (if b then ''true'' else ''false'')"

text \<open>
  \<open>localStorage\<close>: the stored pairs, a key at most once. \<open>getItem\<close> returns \<open>None\<close> for
  \<open>null\<close>.
\<close>

type_synonym storage = "(string \<times> string) list"

definition getItem :: "storage \<Rightarrow> string \<Rightarrow> string option" where
  "getItem st k = map_of st k"

definition setItem :: "storage \<Rightarrow> string \<Rightarrow> string \<Rightarrow> storage" where
  "setItem st k v = (k, v) # filter (\<lambda>(k', _). k' \<noteq> k) st"

datatype storage_op = GetItem string | SetItem string string

definition dark_key :: string where
  "dark_key = ''cryptoAgentDarkMode''"

text \<open>
  The first effect, run once after the first render (\<open>useEffect(..., [])\<close>):

  \<^verbatim>\<open>const savedDark = localStorage.getItem('cryptoAgentDarkMode')
  setDark(savedDark ? JSON.parse(savedDark) : false)\<close>

  The result is the calls made on the storage and the value passed to \<open>setDark\<close>, or the
  error thrown. The empty string is falsy, as \<open>null\<close> is.
\<close>

definition load_dark :: "storage \<Rightarrow> storage_op list \<times> (error + js_value)" where
  "load_dark st =
     (let savedDark = getItem st dark_key
      in ([GetItem dark_key],
          (case savedDark of
             None \<Rightarrow> Inr (VBool False)
           | Some s \<Rightarrow> if s = [] then Inr (VBool False) else JSON_parse s)))"

text \<open>
  The second effect, run after the first render and after every change of \<open>dark\<close>:

  \<^verbatim>\<open>localStorage.setItem('cryptoAgentDarkMode', JSON.stringify(dark))\<close>
\<close>

definition save_dark :: "bool \<Rightarrow> storage \<Rightarrow> storage" where
  "save_dark d st = setItem st dark_key (JSON_stringify d)"

text \<open>\<^verbatim>\<open>onClick={() => setDark(!dark)}\<close>, and the second effect after it.\<close>

definition toggle_dark :: "bool \<times> storage \<Rightarrow> bool \<times> storage" where
  "toggle_dark p = (\<not> fst p, save_dark (\<not> fst p) (snd p))"

text \<open>
  Loading the view: \<open>dark\<close> starts as \<open>false\<close>; both effects run (the second one writes
  \<open>false\<close>); if the first one passed \<open>true\<close> to \<open>setDark\<close>, the view renders again and the
  second effect writes \<open>true\<close>. A stored value that is JSON and not a boolean would put a
  value outside \<open>boolean\<close> into \<open>dark\<close>; it is reported as \<open>NotBoolean\<close> and not followed.
\<close>

datatype startup = Started bool storage | Threw error | NotBoolean js_value

definition startup :: "storage \<Rightarrow> startup" where
  "startup st =
     (case snd (load_dark st) of
        Inl e \<Rightarrow> Threw e
      | Inr (VBool d) \<Rightarrow>
          let st1 = save_dark False st
          in Started d (if d then save_dark True st1 else st1)
      | Inr v \<Rightarrow> NotBoolean v)"

subsection \<open>The orchestrator in the words of the specification\<close>

text \<open>
  Section 4.2, step 3: a request is successful only if the transport completes, the
  response status indicates success, and the JSON body conforms to the schema. The
  function returns the validated record of a successful request.
\<close>

definition spec_success :: "(string \<Rightarrow> bool) \<Rightarrow> fetch_outcome \<Rightarrow> TokenInfo option" where
  "spec_success is_url outcome =
     (case outcome of
        NetworkError \<Rightarrow> None
      | HttpResponse status body \<Rightarrow>
          (case body of
             None \<Rightarrow> None
           | Some data \<Rightarrow>
               (case TokenSchema_parse is_url data of
                  Inl e \<Rightarrow> None
                | Inr t \<Rightarrow> if 200 \<le> status \<and> status \<le> 299 then Some t else None)))"

text \<open>
  What the requests of a submission come to, in the order in which they are issued: one
  request per entry that is not blank, in the order of the entries.
\<close>

definition request_outcomes :: "(nat \<Rightarrow> string \<Rightarrow> fetch_outcome) \<Rightarrow> string list \<Rightarrow> fetch_outcome list" where
  "request_outcomes net ts = map (\<lambda>(i, t). net i (request_url t)) (enumerate 0 (validTokens ts))"

text \<open>The values of the closed enumeration of section 3.\<close>

definition sentiment_names :: "string list" where
  "sentiment_names = [''bullish'', ''bearish'', ''neutral'', ''strong bullish'', ''strong bearish'']"

text \<open>The number a decimal numeral stands for.\<close>

definition read_decimal :: "string \<Rightarrow> nat" where
  "read_decimal s = foldl (\<lambda>a c. 10 * a + (of_char c - 48)) 0 s"

subsection \<open>Concrete inputs\<close>

text \<open>
  A stand-in for the URL parser, a network, an upstream service and three views, for the
  concrete runs below.
\<close>

definition example_is_url :: "string \<Rightarrow> bool" where
  "example_is_url s \<longleftrightarrow> take 8 s = ''https://''"

definition bitcoin_body :: json where
  "bitcoin_body = JObj [(''id'', JStr ''bitcoin''), (''name'', JStr ''Bitcoin''),
     (''symbol'', JStr ''btc''), (''image'', JStr ''https://example.org/btc.png''),
     (''summary'', JStr ''A summary.''), (''sentiment'', JStr ''bullish'')]"

definition bitcoin_info :: TokenInfo where
  "bitcoin_info = \<lparr>id_field = ''bitcoin'', name = ''Bitcoin'', symbol = ''btc'',
     image = ''https://example.org/btc.png'', summary = ''A summary.'', price = None,
     market_cap = None, price_change_24h = None, volume_24h = None,
     circulating_supply = None, sentiment = Bullish\<rparr>"

definition ethereum_body :: json where
  "ethereum_body = JObj [(''id'', JStr ''ethereum''), (''name'', JStr ''Ethereum''),
     (''symbol'', JStr ''eth''), (''image'', JStr ''https://example.org/eth.png''),
     (''summary'', JStr ''Another summary.''), (''sentiment'', JStr ''strong bearish''),
     (''rank'', JStr ''2'')]"

definition ethereum_info :: TokenInfo where
  "ethereum_info = \<lparr>id_field = ''ethereum'', name = ''Ethereum'', symbol = ''eth'',
     image = ''https://example.org/eth.png'', summary = ''Another summary.'', price = None,
     market_cap = None, price_change_24h = None, volume_24h = None,
     circulating_supply = None, sentiment = StrongBearish\<rparr>"

definition not_found_body :: json where
  "not_found_body = JObj [(''detail'', JStr ''Not Found'')]"

definition odd_sentiment_body :: json where
  "odd_sentiment_body = JObj [(''id'', JStr ''bitcoin''), (''name'', JStr ''Bitcoin''),
     (''symbol'', JStr ''btc''), (''image'', JStr ''https://example.org/btc.png''),
     (''summary'', JStr ''A summary.''), (''sentiment'', JStr ''very bullish'')]"

definition example_net :: "nat \<Rightarrow> string \<Rightarrow> fetch_outcome" where
  "example_net i url =
     (if url = ''/api/research?token=btc'' then HttpResponse 200 (Some bitcoin_body)
      else if url = ''/api/research?token=eth'' then HttpResponse 200 (Some ethereum_body)
      else if url = ''/api/research?token=doge'' then HttpResponse 200 (Some odd_sentiment_body)
      else if url = ''/api/research?token= sol '' then HttpResponse 500 None
      else NetworkError)"

definition out_of_range_body :: json where
  "out_of_range_body = JObj [(''id'', JStr ''big''), (''price'', JNum Infinity)]"

definition example_upstream :: "string \<Rightarrow> fetch_outcome" where
  "example_upstream url =
     (if url = ''https://crypto-research-agent-api-yvc3.onrender.com/research?token=btc''
      then HttpResponse 200 (Some bitcoin_body)
      else if url = ''https://crypto-research-agent-api-yvc3.onrender.com/research?token=big''
      then HttpResponse 200 (Some out_of_range_body)
      else if url = ''https://crypto-research-agent-api-yvc3.onrender.com/research?token=down''
      then HttpResponse 502 None
      else if url = ''https://crypto-research-agent-api-yvc3.onrender.com/research?token=off''
      then NetworkError
      else HttpResponse 404 (Some not_found_body))"

definition example_view :: view where
  "example_view = \<lparr>tokens = [''BTC'', ''  '', ''eth'', ''Doge'', ''btc'', '' Sol ''],
     results = [], loading = False, dark = False, toasts = [''An earlier notice'']\<rparr>"

definition distinct_view :: view where
  "distinct_view = \<lparr>tokens = [''btc'', ''ETH'', ''doge''],
     results = [], loading = False, dark = False, toasts = []\<rparr>"

definition blank_view :: view where
  "blank_view = \<lparr>tokens = ['''', ''  ''], results = [bitcoin_info], loading = False,
     dark = True, toasts = [''An earlier notice'']\<rparr>"

section \<open>Properties\<close>

subsection \<open>Removing a field\<close>

lemma filter_index_neq:
  "map snd (filter (\<lambda>(i, _). i \<noteq> k + n) (enumerate n xs)) = take k xs @ drop (Suc k) xs"
proof (induction xs arbitrary: n k)
  case Nil
  show ?case by simp
next
  case (Cons x xs)
  show ?case
  proof (cases k)
    case 0
    have "filter (\<lambda>(i, _). i \<noteq> n) (enumerate (Suc n) xs) = enumerate (Suc n) xs"
      by (rule filter_True) (auto simp: in_set_enumerate_eq)
    with 0 show ?thesis by simp
  next
    case (Suc j)
    have "map snd (filter (\<lambda>(i, _). i \<noteq> j + Suc n) (enumerate (Suc n) xs))
            = take j xs @ drop (Suc j) xs"
      by (rule Cons.IH)
    with Suc show ?thesis by simp
  qed
qed

lemma removeTokenField_take_drop:
  "1 < length ts \<Longrightarrow> removeTokenField i ts = take i ts @ drop (Suc i) ts"
  using filter_index_neq [of i 0 ts] by (simp add: removeTokenField_def)

lemma length_removeTokenField:
  "length (removeTokenField i ts) =
     (if 1 < length ts \<and> i < length ts then length ts - 1 else length ts)"
proof (cases "1 < length ts")
  case True
  then show ?thesis by (auto simp: removeTokenField_take_drop)
next
  case False
  then show ?thesis by (simp add: removeTokenField_def)
qed

lemma reachable_tokens_nonempty: "reachable_tokens ts \<Longrightarrow> 1 \<le> length ts"
proof (induction rule: reachable_tokens.induct)
  case init
  show ?case by (simp add: initial_tokens_def)
next
  case (edit ts i v ts')
  then show ?case by (auto simp: handleTokenChange_def split: if_splits)
next
  case (add ts)
  show ?case by (simp add: addTokenField_def)
next
  case (remove ts i)
  then show ?case by (auto simp: length_removeTokenField)
qed

text \<open>
  C6. Removing from a list of length 1 changes nothing, and every list the view can hold has
  length at least 1, also after a removal. Removing index \<open>i\<close> from a longer list deletes
  the entry at \<open>i\<close> and nothing else: the entries before \<open>i\<close> stay in place, the entries
  after it move one position to the left, in their order.
\<close>

theorem removeTokenField_spec:
  "(length ts = 1 \<longrightarrow> removeTokenField i ts = ts)
   \<and> (reachable_tokens ts \<longrightarrow> 1 \<le> length ts \<and> 1 \<le> length (removeTokenField i ts))
   \<and> (1 < length ts \<longrightarrow>
        removeTokenField i ts = take i ts @ drop (Suc i) ts
        \<and> (i < length ts \<longrightarrow> length (removeTokenField i ts) = length ts - 1)
        \<and> (\<forall>j < length (removeTokenField i ts).
              removeTokenField i ts ! j = (if j < i then ts ! j else ts ! Suc j)))"
proof (intro conjI impI allI)
  assume "length ts = 1"
  then show "removeTokenField i ts = ts" by (simp add: removeTokenField_def)
next
  assume "reachable_tokens ts"
  then show "1 \<le> length ts" by (rule reachable_tokens_nonempty)
next
  assume r: "reachable_tokens ts"
  have "1 \<le> length ts" using r by (rule reachable_tokens_nonempty)
  then show "1 \<le> length (removeTokenField i ts)"
    by (auto simp: length_removeTokenField)
next
  assume "1 < length ts"
  then show "removeTokenField i ts = take i ts @ drop (Suc i) ts"
    by (rule removeTokenField_take_drop)
next
  assume "1 < length ts" "i < length ts"
  then show "length (removeTokenField i ts) = length ts - 1"
    by (simp add: length_removeTokenField)
next
  fix j
  assume l: "1 < length ts" and j: "j < length (removeTokenField i ts)"
  have eq: "removeTokenField i ts = take i ts @ drop (Suc i) ts"
    using l by (rule removeTokenField_take_drop)
  show "removeTokenField i ts ! j = (if j < i then ts ! j else ts ! Suc j)"
  proof (cases "j < i")
    case True
    have "j < length ts" using j eq by (auto simp: min_def split: if_splits)
    with True show ?thesis by (simp add: eq nth_append)
  next
    case False
    have "i < length ts" using j eq False by (auto simp: min_def split: if_splits)
    with False show ?thesis by (simp add: eq nth_append min_def)
  qed
qed

theorem removeTokenField_spec_witness:
  "removeTokenField 0 [''btc''] = [''btc'']
   \<and> reachable_tokens [''btc'', ''eth'', ''sol'']
   \<and> removeTokenField 1 [''btc'', ''eth'', ''sol''] = [''btc'', ''sol'']
   \<and> length (removeTokenField 1 [''btc'', ''eth'', ''sol'']) = 2
   \<and> removeTokenField 1 [''btc'', ''eth'', ''sol''] ! 1 = ''sol''"
proof -
  have e: "reachable_tokens ts \<Longrightarrow> reachable_tokens (ts @ [x])" for ts x
  proof -
    assume r: "reachable_tokens ts"
    have "handleTokenChange (length ts) x (addTokenField ts) = Some (ts @ [x])"
      by (simp add: handleTokenChange_def addTokenField_def)
    with reachable_tokens.add [OF r] show ?thesis by (rule reachable_tokens.edit)
  qed
  have "handleTokenChange 0 ''btc'' initial_tokens = Some [''btc'']"
    by (simp add: handleTokenChange_def initial_tokens_def)
  with reachable_tokens.init have "reachable_tokens [''btc'']"
    by (rule reachable_tokens.edit)
  from e [OF e [OF this]] have r: "reachable_tokens [''btc'', ''eth'', ''sol'']" by simp
  have a: "removeTokenField 0 [''btc''] = [''btc'']"
    using removeTokenField_spec [of "[''btc'']" 0] by simp
  have b: "removeTokenField 1 [''btc'', ''eth'', ''sol''] = [''btc'', ''sol'']
           \<and> length (removeTokenField 1 [''btc'', ''eth'', ''sol'']) = 2
           \<and> removeTokenField 1 [''btc'', ''eth'', ''sol''] ! 1 = ''sol''"
    using removeTokenField_spec [of "[''btc'', ''eth'', ''sol'']" 1] r by simp
  from a r b show ?thesis by simp
qed

subsection \<open>Strings\<close>

lemma trim_Nil_iff: "trim t = [] \<longleftrightarrow> (\<forall>c \<in> set t. is_white_space c)"
proof
  assume "trim t = []"
  then have a: "\<forall>c \<in> set (dropWhile is_white_space t). is_white_space c"
    by (simp add: trim_def)
  have "dropWhile is_white_space t = []"
  proof (rule ccontr)
    assume n: "dropWhile is_white_space t \<noteq> []"
    then have "\<not> is_white_space (hd (dropWhile is_white_space t))"
      by (rule hd_dropWhile)
    moreover have "hd (dropWhile is_white_space t) \<in> set (dropWhile is_white_space t)"
      using n by (rule hd_in_set)
    ultimately show False using a by blast
  qed
  then show "\<forall>c \<in> set t. is_white_space c"
    by simp
next
  assume "\<forall>c \<in> set t. is_white_space c"
  then show "trim t = []"
    by (auto simp: trim_def dest: set_dropWhileD)
qed

lemma validTokens_non_blank:
  "validTokens ts = filter (\<lambda>t. \<exists>c \<in> set t. \<not> is_white_space c) ts"
  by (simp add: validTokens_def trim_Nil_iff)

lemma of_char_lower_char:
  "(of_char (lower_char c) :: nat) =
     (let n = of_char c
      in if (65 \<le> n \<and> n \<le> 90) \<or> (192 \<le> n \<and> n \<le> 222 \<and> n \<noteq> 215) then n + 32 else n)"
proof -
  have "(of_char c :: nat) < 256" by simp
  then show ?thesis by (auto simp: lower_char_def Let_def)
qed

lemma is_white_space_lower_char: "is_white_space (lower_char c) \<longleftrightarrow> is_white_space c"
  by (auto simp: is_white_space_def of_char_lower_char Let_def)

lemma lower_char_white_space: "is_white_space c \<Longrightarrow> lower_char c = c"
  by (auto simp: is_white_space_def lower_char_def Let_def)

lemma takeWhile_white_space_toLowerCase:
  "takeWhile is_white_space (toLowerCase t) = takeWhile is_white_space t"
proof -
  have "takeWhile is_white_space (map lower_char t)
          = map lower_char (takeWhile (is_white_space \<circ> lower_char) t)"
    by (rule takeWhile_map)
  also have "is_white_space \<circ> lower_char = is_white_space"
    by (rule ext) (simp add: is_white_space_lower_char)
  also have "map lower_char (takeWhile is_white_space t) = takeWhile is_white_space t"
    by (rule map_idI) (auto dest: set_takeWhileD simp: lower_char_white_space)
  finally show ?thesis by (simp add: toLowerCase_def)
qed

lemma read_decimal_decimal: "read_decimal (decimal n) = n"
proof (induction n rule: decimal.induct)
  case (1 n)
  show ?case
  proof (cases "n < 10")
    case True
    then have "(of_char (char_of (48 + n)) :: nat) = 48 + n" by simp
    with True show ?thesis by (simp add: decimal.simps [of n] read_decimal_def)
  next
    case False
    have "n mod 10 < 10" by simp
    then have "(of_char (char_of (48 + n mod 10)) :: nat) = 48 + n mod 10"
      by (simp del: mod_less_divisor)
    with False "1.IH" show ?thesis
      by (simp add: decimal.simps [of n] read_decimal_def)
  qed
qed

subsection \<open>Settling and aggregation\<close>

lemma slots_fold:
  "length s = length ps \<Longrightarrow>
   length (fold (fill_slot ps) order s) = length ps
   \<and> (\<forall>j < length ps.
        fold (fill_slot ps) order s ! j = (if j \<in> set order then Some (ps ! j) else s ! j))"
proof (induction order arbitrary: s)
  case Nil
  then show ?case by simp
next
  case (Cons i order)
  have l: "length (fill_slot ps i s) = length ps"
    using Cons.prems by (simp add: fill_slot_def)
  have n: "fill_slot ps i s ! j = (if j = i then Some (ps ! j) else s ! j)" if "j < length ps" for j
    using Cons.prems that by (simp add: fill_slot_def nth_list_update)
  have IH: "length (fold (fill_slot ps) order (fill_slot ps i s)) = length ps
      \<and> (\<forall>j < length ps. fold (fill_slot ps) order (fill_slot ps i s) ! j
            = (if j \<in> set order then Some (ps ! j) else fill_slot ps i s ! j))"
    by (rule Cons.IH [OF l])
  show ?case
  proof (intro conjI allI impI)
    show "length (fold (fill_slot ps) (i # order) s) = length ps"
      using IH by simp
  next
    fix j
    assume j: "j < length ps"
    show "fold (fill_slot ps) (i # order) s ! j
            = (if j \<in> set (i # order) then Some (ps ! j) else s ! j)"
      using IH j n [OF j] by (cases "j = i") simp_all
  qed
qed

text \<open>
  The combined promise resolves exactly when every promise has settled, and then with the
  results in the order of the input, whatever the order of settling.
\<close>

lemma allSettled_eq:
  "allSettled ps order = (if {..<length ps} \<subseteq> set order then Some ps else None)"
proof -
  define slots where "slots = fold (fill_slot ps) order (replicate (length ps) None)"
  have l: "length slots = length ps"
    using slots_fold [of "replicate (length ps) None" ps order] by (simp add: slots_def)
  have n: "slots ! j = (if j \<in> set order then Some (ps ! j) else None)" if "j < length ps" for j
    using slots_fold [of "replicate (length ps) None" ps order] that by (simp add: slots_def)
  have a: "allSettled ps order =
             (if list_all (\<lambda>x. x \<noteq> None) slots then Some (map the slots) else None)"
    by (simp add: allSettled_def slots_def)
  show ?thesis
  proof (cases "{..<length ps} \<subseteq> set order")
    case True
    have "slots = map Some ps"
    proof (rule nth_equalityI)
      show "length slots = length (map Some ps)" using l by simp
    next
      fix j assume "j < length slots"
      then have j: "j < length ps" using l by simp
      then have "j \<in> set order" using True by auto
      then show "slots ! j = map Some ps ! j" using n [OF j] j by simp
    qed
    then show ?thesis using True by (simp add: a list_all_iff comp_def)
  next
    case False
    then obtain j where j: "j < length ps" "j \<notin> set order" by auto
    then have "slots ! j = None" using n by simp
    moreover have "slots ! j \<in> set slots" using j l by simp
    ultimately have "\<not> list_all (\<lambda>x. x \<noteq> None) slots" by (auto simp: list_all_iff)
    then show ?thesis using False by (simp add: a)
  qed
qed

lemma fetchToken_spec_success:
  "settled_value (fetchToken is_url out) = spec_success is_url out"
  "is_fulfilled (fetchToken is_url out) \<longleftrightarrow> spec_success is_url out \<noteq> None"
  "is_rejected (fetchToken is_url out) \<longleftrightarrow> spec_success is_url out = None"
  by (auto simp: fetchToken_def spec_success_def ok_def
           split: fetch_outcome.splits option.splits sum.splits)

lemma successfulResults_fetchToken:
  "successfulResults (map (fetchToken is_url) outs) = List.map_filter (spec_success is_url) outs"
  by (induction outs)
    (auto simp: successfulResults_def List.map_filter_simps fetchToken_spec_success)

lemma failedCount_fetchToken:
  "failedCount (map (fetchToken is_url) outs)
     = length (filter (\<lambda>out. spec_success is_url out = None) outs)"
  by (induction outs) (auto simp: failedCount_def fetchToken_spec_success)

lemma promises_outcomes:
  "map (\<lambda>(i, url). fetchToken is_url (net i url)) (enumerate 0 (map request_url (validTokens ts)))
     = map (fetchToken is_url) (request_outcomes net ts)"
  by (simp add: request_outcomes_def enumerate_eq_zip zip_map2 case_prod_beta comp_def)

lemma handleSubmit_requests:
  "snd (handleSubmit is_url net order v) = map request_url (validTokens (tokens v))"
  by (simp add: handleSubmit_def Let_def split: option.splits)

lemma handleSubmit_results:
  "results (fst (handleSubmit is_url net order v)) =
     (if {..<length (validTokens (tokens v))} \<subseteq> set order
      then List.map_filter (spec_success is_url) (request_outcomes net (tokens v)) else [])"
proof (cases "validTokens (tokens v) = []")
  case True
  then show ?thesis
    by (simp add: handleSubmit_def request_outcomes_def List.map_filter_simps)
next
  case False
  let ?ps = "map (fetchToken is_url) (request_outcomes net (tokens v))"
  have "length ?ps = length (validTokens (tokens v))"
    by (simp add: request_outcomes_def)
  then have "allSettled ?ps order =
      (if {..<length (validTokens (tokens v))} \<subseteq> set order then Some ?ps else None)"
    by (simp add: allSettled_eq)
  then show ?thesis
    using False
    by (simp add: handleSubmit_def promises_outcomes Let_def successfulResults_fetchToken)
qed

subsection \<open>The concrete inputs, evaluated\<close>

lemma ex_lower:
  "toLowerCase ''BTC'' = ''btc''" "toLowerCase ''eth'' = ''eth''" "toLowerCase ''ETH'' = ''eth''"
  "toLowerCase ''Doge'' = ''doge''" "toLowerCase ''doge'' = ''doge''"
  "toLowerCase ''btc'' = ''btc''" "toLowerCase '' Sol '' = '' sol ''"
  by code_simp+

lemma ex_valid:
  "validTokens (tokens example_view) = [''BTC'', ''eth'', ''Doge'', ''btc'', '' Sol '']"
  "validTokens (tokens distinct_view) = [''btc'', ''ETH'', ''doge'']"
  by (simp_all add: example_view_def distinct_view_def validTokens_def trim_def is_white_space_def)

lemma ex_parse:
  "TokenSchema_parse example_is_url bitcoin_body = Inr bitcoin_info"
  "TokenSchema_parse example_is_url ethereum_body = Inr ethereum_info"
  "TokenSchema_parse example_is_url odd_sentiment_body = Inl ZodError"
  by (simp_all add: TokenSchema_parse_def TokenSchema_fields_def bitcoin_body_def bitcoin_info_def
        ethereum_body_def ethereum_info_def odd_sentiment_body_def z_string_url_def example_is_url_def)

lemma ex_outcomes:
  "request_outcomes example_net (tokens example_view) =
     [HttpResponse 200 (Some bitcoin_body), HttpResponse 200 (Some ethereum_body),
      HttpResponse 200 (Some odd_sentiment_body), HttpResponse 200 (Some bitcoin_body),
      HttpResponse 500 None]"
  "request_outcomes example_net (tokens distinct_view) =
     [HttpResponse 200 (Some bitcoin_body), HttpResponse 200 (Some ethereum_body),
      HttpResponse 200 (Some odd_sentiment_body)]"
  by (simp_all add: request_outcomes_def ex_valid request_url_def ex_lower example_net_def)

lemma ex_success:
  "spec_success example_is_url (HttpResponse 200 (Some bitcoin_body)) = Some bitcoin_info"
  "spec_success example_is_url (HttpResponse 200 (Some ethereum_body)) = Some ethereum_info"
  "spec_success example_is_url (HttpResponse 200 (Some odd_sentiment_body)) = None"
  "spec_success example_is_url (HttpResponse 500 None) = None"
  by (simp_all add: spec_success_def ex_parse)

lemma ex_decimal: "decimal 2 = ''2''"
  by code_simp

subsection \<open>Submissions\<close>

text \<open>
  C1. When the filtered list is not empty and every request has settled (in any order),
  the handler leaves as result set the validated records of exactly the requests that were
  successful in the sense of the specification (transport, status, schema), in the order
  in which the requests were issued; when some request failed, the only notice on screen
  is the failure notice for the number \<open>k\<close> of failed requests, and there is no notice
  otherwise. The numeral in that notice stands for \<open>k\<close>.
\<close>

theorem handleSubmit_settled:
  assumes "validTokens (tokens v) \<noteq> []"
    and "{..<length (validTokens (tokens v))} \<subseteq> set order"
  shows "handleSubmit is_url net order v =
           (v\<lparr>loading := False,
              results := List.map_filter (spec_success is_url) (request_outcomes net (tokens v)),
              toasts := (let k = length (filter (\<lambda>out. spec_success is_url out = None)
                                                (request_outcomes net (tokens v)))
                         in if k > 0 then [failure_notice k] else [])\<rparr>,
            map request_url (validTokens (tokens v)))
         \<and> failure_notice k
               = ''Failed to fetch '' @ decimal k @ '' token'' @ (if 1 < k then ''s'' else [])
         \<and> read_decimal (decimal k) = k"
proof -
  let ?ps = "map (fetchToken is_url) (request_outcomes net (tokens v))"
  have "length ?ps = length (validTokens (tokens v))"
    by (simp add: request_outcomes_def)
  then have "allSettled ?ps order = Some ?ps"
    using assms(2) by (simp add: allSettled_eq)
  then have "handleSubmit is_url net order v =
           (v\<lparr>loading := False,
              results := List.map_filter (spec_success is_url) (request_outcomes net (tokens v)),
              toasts := (let k = length (filter (\<lambda>out. spec_success is_url out = None)
                                                (request_outcomes net (tokens v)))
                         in if k > 0 then [failure_notice k] else [])\<rparr>,
            map request_url (validTokens (tokens v)))"
    using assms(1)
    by (simp add: handleSubmit_def promises_outcomes Let_def
          successfulResults_fetchToken failedCount_fetchToken)
  then show ?thesis
    by (simp add: failure_notice_def read_decimal_decimal)
qed

theorem handleSubmit_settled_witness:
  "handleSubmit example_is_url example_net [4, 1, 0, 3, 2] example_view =
     (example_view\<lparr>loading := False, results := [bitcoin_info, ethereum_info, bitcoin_info],
        toasts := [''Failed to fetch 2 tokens'']\<rparr>,
      [''/api/research?token=btc'', ''/api/research?token=eth'', ''/api/research?token=doge'',
       ''/api/research?token=btc'', ''/api/research?token= sol ''])"
proof -
  have a: "validTokens (tokens example_view) \<noteq> []" by (simp add: ex_valid)
  have b: "{..<length (validTokens (tokens example_view))} \<subseteq> set [4, 1, 0, 3, 2]"
    by (auto simp: ex_valid)
  have c: "List.map_filter (spec_success example_is_url)
             (request_outcomes example_net (tokens example_view))
             = [bitcoin_info, ethereum_info, bitcoin_info]"
    by (simp add: ex_outcomes List.map_filter_simps ex_success)
  have d: "length (filter (\<lambda>out. spec_success example_is_url out = None)
             (request_outcomes example_net (tokens example_view))) = 2"
    by (simp add: ex_outcomes ex_success)
  show ?thesis
    using handleSubmit_settled [OF a b, of example_is_url example_net]
    by (simp add: c d ex_valid request_url_def ex_lower failure_notice_def ex_decimal)
qed

text \<open>
  C2. When every entry is empty or consists of white space only, the handler issues no
  request, leaves one notice on screen, and leaves the result set empty, whatever it held
  before.
\<close>

theorem handleSubmit_blank:
  assumes "\<forall>t \<in> set (tokens v). \<forall>c \<in> set t. is_white_space c"
  shows "handleSubmit is_url net order v =
           (v\<lparr>loading := False, results := [],
              toasts := [''Please enter at least one token'']\<rparr>, [])"
proof -
  have "validTokens (tokens v) = []"
    using assms by (simp add: validTokens_def trim_Nil_iff)
  then show ?thesis by (simp add: handleSubmit_def)
qed

theorem handleSubmit_blank_witness:
  "handleSubmit example_is_url example_net [] blank_view =
     (\<lparr>tokens = ['''', ''  ''], results = [], loading = False, dark = True,
        toasts = [''Please enter at least one token'']\<rparr>, [])"
proof -
  have a: "\<forall>t \<in> set (tokens blank_view). \<forall>c \<in> set t. is_white_space c"
    by (simp add: blank_view_def is_white_space_def)
  show ?thesis
    using handleSubmit_blank [OF a, of example_is_url example_net "[]"]
    by (simp add: blank_view_def)
qed

subsection \<open>Responses that fail the schema\<close>

lemma z_enum_sentiment_Some:
  "z_enum_sentiment x = Some y \<Longrightarrow> \<exists>s \<in> set sentiment_names. x = Some (JStr s)"
  by (cases x rule: z_enum_sentiment.cases) (auto simp: sentiment_names_def split: if_splits)

lemma z_string_url_Some:
  "z_string_url is_url x = Some s \<Longrightarrow> x = Some (JStr s) \<and> is_url s"
  by (cases x rule: z_string.cases) (auto simp: z_string_url_def split: if_splits)

lemma TokenSchema_fields_Some:
  assumes "TokenSchema_fields is_url data = Some t"
  shows "(\<exists>s \<in> set sentiment_names. field data ''sentiment'' = Some (JStr s))
         \<and> (\<exists>u. field data ''image'' = Some (JStr u) \<and> is_url u)"
proof -
  from assms obtain img sen where
    "z_string_url is_url (field data ''image'') = Some img"
    "z_enum_sentiment (field data ''sentiment'') = Some sen"
    by (auto simp: TokenSchema_fields_def split: Option.bind_splits)
  then show ?thesis
    using z_enum_sentiment_Some z_string_url_Some by blast
qed

lemma handleSubmit_toasts:
  assumes "validTokens (tokens v) \<noteq> []"
    and "{..<length (validTokens (tokens v))} \<subseteq> set order"
  shows "toasts (fst (handleSubmit is_url net order v)) =
           (let k = length (filter (\<lambda>out. spec_success is_url out = None)
                             (request_outcomes net (tokens v)))
            in if k > 0 then [failure_notice k] else [])"
proof -
  let ?ps = "map (fetchToken is_url) (request_outcomes net (tokens v))"
  have "length ?ps = length (validTokens (tokens v))"
    by (simp add: request_outcomes_def)
  then have "allSettled ?ps order = Some ?ps"
    using assms(2) by (simp add: allSettled_eq)
  then show ?thesis
    using assms(1)
    by (simp add: handleSubmit_def promises_outcomes Let_def failedCount_fetchToken)
qed

lemma map_filter_append:
  "List.map_filter f (xs @ ys) = List.map_filter f xs @ List.map_filter f ys"
  by (simp add: List.map_filter_def)

lemma length_map_filter_le: "length (List.map_filter f xs) \<le> length xs"
  by (simp add: List.map_filter_def)

lemma without_failed:
  assumes "i < length outs" and "f (outs ! i) = None"
  shows "List.map_filter f outs = List.map_filter f (take i outs @ drop (Suc i) outs)"
    and "length (filter (\<lambda>out. f out = None) outs)
           = Suc (length (filter (\<lambda>out. f out = None) (take i outs @ drop (Suc i) outs)))"
proof -
  have outs: "outs = take i outs @ outs ! i # drop (Suc i) outs"
    using assms(1) by (rule id_take_nth_drop)
  have "List.map_filter f (take i outs @ outs ! i # drop (Suc i) outs)
          = List.map_filter f (take i outs @ drop (Suc i) outs)"
    using assms(2) by (simp add: map_filter_append List.map_filter_simps)
  with outs show "List.map_filter f outs = List.map_filter f (take i outs @ drop (Suc i) outs)"
    by simp
  have "length (filter (\<lambda>out. f out = None) (take i outs @ outs ! i # drop (Suc i) outs))
          = Suc (length (filter (\<lambda>out. f out = None) (take i outs @ drop (Suc i) outs)))"
    using assms(2) by simp
  with outs show "length (filter (\<lambda>out. f out = None) outs)
           = Suc (length (filter (\<lambda>out. f out = None) (take i outs @ drop (Suc i) outs)))"
    by simp
qed

text \<open>
  C3. Take a submission whose requests have all settled, and a request of it (the \<open>i\<close>-th)
  that received a body without \<open>sentiment\<close>, with a \<open>sentiment\<close> outside the enumeration,
  or without an \<open>image\<close> that is a string the URL parser accepts. The body fails the
  schema. The result set the handler leaves is the one the other requests give, in their
  order, so it holds no record for this token, whole or partial; and the notice on screen
  names one failure more than the other requests have.
\<close>

theorem invalid_response_excluded:
  assumes "field data ''sentiment'' = None
           \<or> (\<exists>x. field data ''sentiment'' = Some x \<and> x \<notin> JStr ` set sentiment_names)
           \<or> (\<forall>u. field data ''image'' = Some (JStr u) \<longrightarrow> \<not> is_url u)"
    and "{..<length (validTokens (tokens v))} \<subseteq> set order"
    and "i < length (request_outcomes net (tokens v))"
    and "request_outcomes net (tokens v) ! i = HttpResponse status (Some data)"
  shows "TokenSchema_parse is_url data = Inl ZodError
         \<and> results (fst (handleSubmit is_url net order v))
             = List.map_filter (spec_success is_url)
                 (take i (request_outcomes net (tokens v))
                  @ drop (Suc i) (request_outcomes net (tokens v)))
         \<and> length (results (fst (handleSubmit is_url net order v)))
             < length (request_outcomes net (tokens v))
         \<and> toasts (fst (handleSubmit is_url net order v))
             = [failure_notice
                  (Suc (length (filter (\<lambda>out. spec_success is_url out = None)
                          (take i (request_outcomes net (tokens v))
                           @ drop (Suc i) (request_outcomes net (tokens v))))))]"
proof -
  let ?outs = "request_outcomes net (tokens v)"
  have n: "TokenSchema_fields is_url data = None"
  proof (cases "TokenSchema_fields is_url data")
    case None
    then show ?thesis .
  next
    case (Some t)
    from TokenSchema_fields_Some [OF Some] assms(1) show ?thesis by auto
  qed
  then have p: "TokenSchema_parse is_url data = Inl ZodError"
    by (simp add: TokenSchema_parse_def)
  then have f: "spec_success is_url (?outs ! i) = None"
    by (simp add: assms(4) spec_success_def)
  have "length ?outs = length (validTokens (tokens v))"
    by (simp add: request_outcomes_def)
  with assms(3) have ne: "validTokens (tokens v) \<noteq> []" by auto
  have r: "results (fst (handleSubmit is_url net order v))
             = List.map_filter (spec_success is_url) (take i ?outs @ drop (Suc i) ?outs)"
    using without_failed(1) [of i ?outs "spec_success is_url", OF assms(3) f] assms(2) by (simp add: handleSubmit_results)
  have "length (List.map_filter (spec_success is_url) (take i ?outs @ drop (Suc i) ?outs))
          \<le> length (take i ?outs @ drop (Suc i) ?outs)"
    by (rule length_map_filter_le)
  also have "\<dots> < length ?outs" using assms(3) by simp
  finally have l: "length (results (fst (handleSubmit is_url net order v))) < length ?outs"
    by (simp add: r)
  have t: "toasts (fst (handleSubmit is_url net order v))
             = [failure_notice
                  (Suc (length (filter (\<lambda>out. spec_success is_url out = None)
                          (take i ?outs @ drop (Suc i) ?outs))))]"
    using without_failed(2) [of i ?outs "spec_success is_url", OF assms(3) f]
      handleSubmit_toasts [OF ne assms(2), of is_url net]
    by (simp add: Let_def)
  from p r l t show ?thesis by blast
qed

theorem invalid_response_excluded_witness:
  "TokenSchema_parse example_is_url odd_sentiment_body = Inl ZodError
   \<and> results (fst (handleSubmit example_is_url example_net [2, 0, 4, 1, 3] example_view))
       = [bitcoin_info, ethereum_info, bitcoin_info]
   \<and> toasts (fst (handleSubmit example_is_url example_net [2, 0, 4, 1, 3] example_view))
       = [''Failed to fetch 2 tokens'']"
proof -
  have h: "field odd_sentiment_body ''sentiment'' = None
           \<or> (\<exists>x. field odd_sentiment_body ''sentiment'' = Some x
                  \<and> x \<notin> JStr ` set sentiment_names)
           \<or> (\<forall>u. field odd_sentiment_body ''image'' = Some (JStr u) \<longrightarrow> \<not> example_is_url u)"
    by (simp add: odd_sentiment_body_def sentiment_names_def image_iff)
  have s: "{..<length (validTokens (tokens example_view))} \<subseteq> set [2, 0, 4, 1, 3]"
    by (auto simp: ex_valid)
  have i: "2 < length (request_outcomes example_net (tokens example_view))"
    by (simp add: ex_outcomes)
  have out: "request_outcomes example_net (tokens example_view) ! 2
               = HttpResponse 200 (Some odd_sentiment_body)"
    by (simp add: ex_outcomes)
  have d: "decimal (Suc (Suc 0)) = ''2''"
    using ex_decimal by (simp add: numeral_2_eq_2)
  show ?thesis
    using invalid_response_excluded [OF h s i out]
    by (simp add: ex_outcomes List.map_filter_simps ex_success failure_notice_def d)
qed

subsection \<open>Identifiers in a result set\<close>

lemma map_filter_nth:
  "y \<in> set (List.map_filter f xs) \<Longrightarrow> \<exists>j < length xs. f (xs ! j) = Some y"
  by (auto simp: List.map_filter_def in_set_conv_nth)

lemma distinct_map_filter:
  assumes "\<forall>i j a b. i < j \<and> j < length xs \<and> f (xs ! i) = Some a \<and> f (xs ! j) = Some b
             \<longrightarrow> g a \<noteq> g b"
  shows "distinct (map g (List.map_filter f xs))"
  using assms
proof (induction xs)
  case Nil
  show ?case by (simp add: List.map_filter_simps)
next
  case (Cons x xs)
  have tl: "\<forall>i j a b. i < j \<and> j < length xs \<and> f (xs ! i) = Some a \<and> f (xs ! j) = Some b
              \<longrightarrow> g a \<noteq> g b"
  proof (intro allI impI)
    fix i j a b
    assume h: "i < j \<and> j < length xs \<and> f (xs ! i) = Some a \<and> f (xs ! j) = Some b"
    then have "Suc i < Suc j \<and> Suc j < length (x # xs) \<and> f ((x # xs) ! Suc i) = Some a
               \<and> f ((x # xs) ! Suc j) = Some b" by simp
    with Cons.prems show "g a \<noteq> g b" by blast
  qed
  have d: "distinct (map g (List.map_filter f xs))" by (rule Cons.IH [OF tl])
  show ?case
  proof (cases "f x")
    case None
    with d show ?thesis by (simp add: List.map_filter_simps)
  next
    case (Some a)
    have "g a \<notin> g ` set (List.map_filter f xs)"
    proof
      assume "g a \<in> g ` set (List.map_filter f xs)"
      then obtain b where b: "b \<in> set (List.map_filter f xs)" "g a = g b" by auto
      from map_filter_nth [OF b(1)] obtain j where j: "j < length xs" "f (xs ! j) = Some b"
        by auto
      have "0 < Suc j \<and> Suc j < length (x # xs) \<and> f ((x # xs) ! 0) = Some a
            \<and> f ((x # xs) ! Suc j) = Some b"
        using j Some by simp
      with Cons.prems have "g a \<noteq> g b" by blast
      with b(2) show False by simp
    qed
    with d Some show ?thesis by (simp add: List.map_filter_simps)
  qed
qed

text \<open>
  C7, as stated, fails: the same identifier in two fields (here \<open>BTC\<close> and \<open>btc\<close>) gives two
  requests, both succeed, and the result set holds two entries with the \<open>id\<close> \<open>bitcoin\<close>.
\<close>

theorem result_ids_counterexample:
  "map id_field (results (fst (handleSubmit example_is_url example_net [0, 1, 2, 3, 4] example_view)))
     = [''bitcoin'', ''ethereum'', ''bitcoin'']
   \<and> \<not> distinct (map id_field
          (results (fst (handleSubmit example_is_url example_net [0, 1, 2, 3, 4] example_view))))"
proof -
  have "{..<length (validTokens (tokens example_view))} \<subseteq> set [0, 1, 2, 3, 4]"
    by (auto simp: ex_valid)
  then have e: "map id_field
      (results (fst (handleSubmit example_is_url example_net [0, 1, 2, 3, 4] example_view)))
        = [''bitcoin'', ''ethereum'', ''bitcoin'']"
    by (simp add: handleSubmit_results ex_outcomes List.map_filter_simps ex_success
          bitcoin_info_def ethereum_info_def del: set_simps)
  show ?thesis unfolding e by simp
qed

text \<open>
  C7, amended. The handler keeps the record of every successful request and removes no
  duplicate: the entries of a result set have pairwise different \<open>id\<close>s whenever the
  successful responses of the submission carry pairwise different \<open>id\<close>s.
\<close>

theorem result_ids_distinct:
  assumes "\<forall>i j a b. i < j \<and> j < length (request_outcomes net (tokens v))
              \<and> spec_success is_url (request_outcomes net (tokens v) ! i) = Some a
              \<and> spec_success is_url (request_outcomes net (tokens v) ! j) = Some b
             \<longrightarrow> id_field a \<noteq> id_field b"
  shows "distinct (map id_field (results (fst (handleSubmit is_url net order v))))"
  using distinct_map_filter [OF assms] by (simp add: handleSubmit_results)

theorem result_ids_distinct_witness:
  "map id_field (results (fst (handleSubmit example_is_url example_net [2, 1, 0] distinct_view)))
     = [''bitcoin'', ''ethereum'']
   \<and> distinct (map id_field
        (results (fst (handleSubmit example_is_url example_net [2, 1, 0] distinct_view))))"
proof -
  have h: "\<forall>i j a b. i < j \<and> j < length (request_outcomes example_net (tokens distinct_view))
              \<and> spec_success example_is_url (request_outcomes example_net (tokens distinct_view) ! i) = Some a
              \<and> spec_success example_is_url (request_outcomes example_net (tokens distinct_view) ! j) = Some b
             \<longrightarrow> id_field a \<noteq> id_field b"
  proof (intro allI impI)
    fix i j a b
    assume H: "i < j \<and> j < length (request_outcomes example_net (tokens distinct_view))
              \<and> spec_success example_is_url (request_outcomes example_net (tokens distinct_view) ! i) = Some a
              \<and> spec_success example_is_url (request_outcomes example_net (tokens distinct_view) ! j) = Some b"
    note H' = H [unfolded ex_outcomes]
    from H' have ij: "i < j" "j < 3" by simp_all
    from H' have a: "spec_success example_is_url
                ([HttpResponse 200 (Some bitcoin_body), HttpResponse 200 (Some ethereum_body),
                  HttpResponse 200 (Some odd_sentiment_body)] ! i) = Some a"
      by blast
    from H' have b: "spec_success example_is_url
                ([HttpResponse 200 (Some bitcoin_body), HttpResponse 200 (Some ethereum_body),
                  HttpResponse 200 (Some odd_sentiment_body)] ! j) = Some b"
      by blast
    from ij consider "i = 0" "j = 1" | "i = 0" "j = 2" | "i = 1" "j = 2" by linarith
    then show "id_field a \<noteq> id_field b"
    proof cases
      case 1
      with a b show ?thesis by (auto simp: ex_success bitcoin_info_def ethereum_info_def)
    next
      case 2
      with b show ?thesis by (simp add: ex_success)
    next
      case 3
      with b show ?thesis by (simp add: ex_success)
    qed
  qed
  have "{..<length (validTokens (tokens distinct_view))} \<subseteq> set [2, 1, 0]"
    by (auto simp: ex_valid)
  then have "map id_field (results (fst (handleSubmit example_is_url example_net [2, 1, 0] distinct_view)))
               = [''bitcoin'', ''ethereum'']"
    by (simp add: handleSubmit_results ex_outcomes List.map_filter_simps ex_success
          bitcoin_info_def ethereum_info_def del: set_simps)
  with result_ids_distinct [OF h, of "[2, 1, 0]"] show ?thesis by simp
qed

subsection \<open>The URL of a request\<close>

text \<open>
  C10, as stated, fails. The entry \<open>Sol\<close> with a space on each side is not blank, and the
  handler passes \<open>/api/research?token= sol \<close>, with both spaces, to \<open>fetch\<close>. The URL
  parser removes the space at the end, so the \<open>token\<close> parameter of the request that
  reaches the proxy has the space at the front only.
\<close>

theorem request_token_counterexample:
  "trim '' Sol '' = ''Sol''
   \<and> request_url '' Sol '' = ''/api/research?token= sol ''
   \<and> searchParams_of (request_url '' Sol '') = Some [(''token'', '' sol'')]
   \<and> searchParams_of (request_url '' Sol '') \<noteq> Some [(''token'', toLowerCase '' Sol '')]"
proof -
  have "toLowerCase '' Sol '' = '' sol ''" by code_simp
  then show ?thesis
    by (simp add: trim_def is_white_space_def request_url_def searchParams_of_def url_query_def
          url_input_def c0_or_space_def tab_or_newline_def name_value_def)
qed

text \<open>
  C10, amended. The handler calls \<open>fetch\<close> once for each entry that has a character other
  than white space, in the order of the entries, with the fixed path followed by the entry
  in lower case. Lowering keeps the length and changes no white space, so the white space
  at the front and at the end of the entry is in the string passed to \<open>fetch\<close>: the entry
  is not trimmed.
\<close>

theorem request_keeps_white_space:
  assumes "t \<in> set (tokens v)" and "\<exists>c \<in> set t. \<not> is_white_space c"
  shows "''/api/research?token='' @ toLowerCase t \<in> set (snd (handleSubmit is_url net order v))
         \<and> snd (handleSubmit is_url net order v)
             = map (\<lambda>t. ''/api/research?token='' @ toLowerCase t)
                   (filter (\<lambda>t. \<exists>c \<in> set t. \<not> is_white_space c) (tokens v))
         \<and> toLowerCase t = map lower_char t
         \<and> takeWhile is_white_space (toLowerCase t) = takeWhile is_white_space t
         \<and> takeWhile is_white_space (rev (toLowerCase t)) = takeWhile is_white_space (rev t)"
proof -
  have u: "request_url = (\<lambda>t. ''/api/research?token='' @ toLowerCase t)"
    by (rule ext) (simp add: request_url_def)
  have r: "snd (handleSubmit is_url net order v)
             = map (\<lambda>t. ''/api/research?token='' @ toLowerCase t)
                   (filter (\<lambda>t. \<exists>c \<in> set t. \<not> is_white_space c) (tokens v))"
    by (simp add: handleSubmit_requests validTokens_non_blank u)
  have m: "''/api/research?token='' @ toLowerCase t \<in> set (snd (handleSubmit is_url net order v))"
    unfolding r using assms by auto
  have "rev (toLowerCase t) = toLowerCase (rev t)"
    by (simp add: toLowerCase_def rev_map)
  then have e: "takeWhile is_white_space (rev (toLowerCase t)) = takeWhile is_white_space (rev t)"
    by (simp add: takeWhile_white_space_toLowerCase)
  have l: "toLowerCase t = map lower_char t" by (simp add: toLowerCase_def)
  have k: "takeWhile is_white_space (toLowerCase t) = takeWhile is_white_space t"
    by (rule takeWhile_white_space_toLowerCase)
  show ?thesis by (intro conjI) (rule m, rule r, rule l, rule k, rule e)
qed

theorem request_keeps_white_space_witness:
  "''/api/research?token= sol '' \<in> set (snd (handleSubmit example_is_url example_net [] example_view))
   \<and> snd (handleSubmit example_is_url example_net [] example_view)
       = [''/api/research?token=btc'', ''/api/research?token=eth'', ''/api/research?token=doge'',
          ''/api/research?token=btc'', ''/api/research?token= sol '']"
proof -
  have a: "'' Sol '' \<in> set (tokens example_view)" by (simp add: example_view_def)
  have b: "\<exists>c \<in> set '' Sol ''. \<not> is_white_space c" by (simp add: is_white_space_def)
  have f: "filter (\<lambda>t. \<exists>c \<in> set t. \<not> is_white_space c) (tokens example_view)
             = [''BTC'', ''eth'', ''Doge'', ''btc'', '' Sol '']"
    by (simp add: example_view_def is_white_space_def)
  show ?thesis
    using request_keeps_white_space [OF a b, of example_is_url example_net "[]"]
    by (simp add: f ex_lower)
qed

subsection \<open>The proxy route\<close>






text \<open>
  C5. A request without a \<open>token\<close> parameter is answered with status 400 and the body
  \<open>{"error": "Token is required"}\<close>, and the upstream service is not called.
\<close>

theorem GET_token_missing:
  assumes "''token'' \<notin> fst ` set searchParams"
  shows "GET upstream searchParams = ([], Inr (400, JObj [(''error'', JStr ''Token is required'')]))"
proof -
  have "map_of searchParams ''token'' = None"
    using assms by (simp add: map_of_eq_None_iff)
  then show ?thesis by (simp add: GET_def token_required_def)
qed

theorem GET_token_missing_witness:
  "GET example_upstream [(''symbol'', ''btc'')]
     = ([], Inr (400, JObj [(''error'', JStr ''Token is required'')]))"
proof -
  have a: "''token'' \<notin> fst ` set [(''symbol'', ''btc'')]" by simp
  show ?thesis using GET_token_missing [OF a] .
qed

subsection \<open>The dark-mode flag\<close>

lemma JSON_parse_stringify: "JSON_parse (JSON_stringify d) = Inr (VBool d)"
  by (cases d)
    (simp_all add: JSON_stringify_def JSON_parse_def top_value_def json_ws_def start_value_def)

lemma getItem_setItem: "getItem (setItem st k v) k' = (if k' = k then Some v else getItem st k')"
proof -
  have "map_of (filter (\<lambda>(k', _). k' \<noteq> k) st) k' = map_of st k'" if "k' \<noteq> k"
    using that by (induction st) auto
  then show ?thesis by (simp add: getItem_def setItem_def)
qed

text \<open>
  C8, as stated, fails: with the stored value \<open>dark\<close>, which is not JSON, the first effect
  throws a \<open>SyntaxError\<close> and passes nothing to \<open>setDark\<close>.
\<close>

theorem load_dark_malformed_counterexample:
  "JSON_parse ''dark'' = Inl SyntaxError
   \<and> snd (load_dark [(''cryptoAgentDarkMode'', ''dark'')]) = Inl SyntaxError
   \<and> snd (load_dark [(''cryptoAgentDarkMode'', ''dark'')]) \<noteq> Inr (VBool False)
   \<and> startup [(''cryptoAgentDarkMode'', ''dark'')] = Threw SyntaxError"
  by (simp add: startup_def load_dark_def getItem_def dark_key_def JSON_parse_def
        json_ws_def start_value_def digit19_def)

text \<open>
  C8, amended. The first effect reads the storage once. The flag evaluates to \<open>false\<close> when
  the stored value is absent or is the empty string; for any other stored value that is not
  JSON the effect throws a \<open>SyntaxError\<close> and no default is applied.
\<close>

theorem load_dark_spec:
  "fst (load_dark st) = [GetItem ''cryptoAgentDarkMode'']
   \<and> (getItem st ''cryptoAgentDarkMode'' = None \<longrightarrow> snd (load_dark st) = Inr (VBool False))
   \<and> (getItem st ''cryptoAgentDarkMode'' = Some [] \<longrightarrow> snd (load_dark st) = Inr (VBool False))
   \<and> (\<forall>s. getItem st ''cryptoAgentDarkMode'' = Some s \<and> s \<noteq> [] \<and> JSON_parse s = Inl SyntaxError
          \<longrightarrow> snd (load_dark st) = Inl SyntaxError \<and> startup st = Threw SyntaxError)"
  by (simp add: load_dark_def dark_key_def startup_def)

theorem load_dark_spec_witness:
  "fst (load_dark []) = [GetItem ''cryptoAgentDarkMode'']
   \<and> snd (load_dark []) = Inr (VBool False)
   \<and> snd (load_dark [(''cryptoAgentDarkMode'', '''')]) = Inr (VBool False)
   \<and> snd (load_dark [(''cryptoAgentDarkMode'', ''{'')]) = Inl SyntaxError
   \<and> startup [(''cryptoAgentDarkMode'', ''{'')] = Threw SyntaxError"
proof -
  have a: "getItem [] ''cryptoAgentDarkMode'' = None" by (simp add: getItem_def)
  have b: "getItem [(''cryptoAgentDarkMode'', '''')] ''cryptoAgentDarkMode'' = Some []"
    by (simp add: getItem_def)
  have c: "getItem [(''cryptoAgentDarkMode'', ''{'')] ''cryptoAgentDarkMode'' = Some ''{''
           \<and> ''{'' \<noteq> [] \<and> JSON_parse ''{'' = Inl SyntaxError"
    by (simp add: getItem_def JSON_parse_def json_ws_def start_value_def)
  show ?thesis
    using load_dark_spec [of "[]"] load_dark_spec [of "[(''cryptoAgentDarkMode'', '''')]"]
      load_dark_spec [of "[(''cryptoAgentDarkMode'', ''{'')]"] a b c
    by simp
qed

text \<open>
  C9. Whatever the storage held, after the second effect has written the flag, loading the
  view reads the same value back: the first effect passes it to \<open>setDark\<close>, the view starts
  with it, and the storage holds it again at the end. In particular the mode set by a
  toggle is the mode after a reload.
\<close>

theorem dark_roundtrip:
  "load_dark (save_dark d st) = ([GetItem ''cryptoAgentDarkMode''], Inr (VBool d))
   \<and> (\<exists>st'. startup (save_dark d st) = Started d st'
             \<and> getItem st' ''cryptoAgentDarkMode'' = Some (JSON_stringify d))
   \<and> (\<exists>st'. startup (snd (toggle_dark (d, st))) = Started (\<not> d) st')"
proof -
  have g: "getItem (save_dark d st) dark_key = Some (JSON_stringify d)" for d st
    by (simp add: save_dark_def getItem_setItem)
  have n: "JSON_stringify d \<noteq> []" for d by (simp add: JSON_stringify_def)
  have l: "load_dark (save_dark d st) = ([GetItem dark_key], Inr (VBool d))" for d st
    by (simp add: load_dark_def g n JSON_parse_stringify)
  have s: "startup (save_dark d st) =
             Started d (if d then save_dark True (save_dark False (save_dark d st))
                        else save_dark False (save_dark d st))" for d st
    by (simp add: startup_def l)
  show ?thesis
    using l [of d st] s [of d st] s [of "\<not> d" st] g
    by (auto simp: dark_key_def toggle_dark_def JSON_stringify_def)
qed

end
